theory Spec2Isabelle
  imports Complex_Main "HOL-Library.Sublist"
begin

section \<open>The values of the program\<close>

subsection \<open>JavaScript numbers\<close>

text \<open>
  The deadlines of the delay cache are JavaScript numbers. A number is modelled as
  \<open>NaN\<close> or an exact real (the infinities and rounding are left out). Arithmetic
  with \<open>NaN\<close> gives \<open>NaN\<close>, every comparison with \<open>NaN\<close> is false, and in a
  condition \<open>NaN\<close> and \<open>0\<close> count as false.
\<close>

datatype jsnum = NaN | Num real

fun js_add :: "jsnum \<Rightarrow> jsnum \<Rightarrow> jsnum" where
  "js_add (Num a) (Num b) = Num (a + b)"
| "js_add _ _ = NaN"

fun js_sub :: "jsnum \<Rightarrow> jsnum \<Rightarrow> jsnum" where
  "js_sub (Num a) (Num b) = Num (a - b)"
| "js_sub _ _ = NaN"

fun js_mul :: "jsnum \<Rightarrow> jsnum \<Rightarrow> jsnum" where
  "js_mul (Num a) (Num b) = Num (a * b)"
| "js_mul _ _ = NaN"

fun js_gt :: "jsnum \<Rightarrow> jsnum \<Rightarrow> bool" where
  "js_gt (Num a) (Num b) = (a > b)"
| "js_gt _ _ = False"

fun isNaN :: "jsnum \<Rightarrow> bool" where
  "isNaN NaN = True"
| "isNaN (Num a) = False"

fun truthy :: "jsnum \<Rightarrow> bool" where
  "truthy NaN = False"
| "truthy (Num a) = (a \<noteq> 0)"

text \<open>
  The values of the reads of \<open>Date.now()\<close> in one synchronous stretch of code, in
  the order of the reads (no stretch reads the clock more than twice).
\<close>

type_synonym clock = "real \<times> real"

subsection \<open>URLs, requests and responses\<close>

text \<open>
  An object of the platform's class \<open>URL\<close>: the fields the program reads. The
  serialisation \<open>href\<close> is the text up to the fragment, followed by \<open>#\<close> and the
  fragment when there is one; assigning the empty string to \<open>hash\<close> removes the
  fragment; the getter \<open>hash\<close> is empty when the fragment is absent or empty.
\<close>

record URL =
  protocol :: string
  host :: string
  unfragmented :: string
  fragment :: "string option"

definition href :: "URL \<Rightarrow> string" where
  "href u = unfragmented u @ (case fragment u of None \<Rightarrow> [] | Some f \<Rightarrow> CHR ''#'' # f)"

definition hash :: "URL \<Rightarrow> string" where
  "hash u = (case fragment u of None \<Rightarrow> [] | Some f \<Rightarrow> if f = [] then [] else CHR ''#'' # f)"

definition set_hash :: "string \<Rightarrow> URL \<Rightarrow> URL" where
  "set_hash v u =
     (if v = [] then u\<lparr>fragment := None\<rparr>
      else u\<lparr>fragment := Some (if hd v = CHR ''#'' then tl v else v)\<rparr>)"

datatype http_method = GET | HEAD

datatype responseType = Text | Stream

text \<open>The header every request carries (the constant \<open>headers\<close> of the source).\<close>

definition headers :: "(string \<times> string) list" where
  "headers = [(''User-Agent'',
     ''Mozilla/5.0 (Macintosh; Intel Mac OS X 10_15_2) AppleWebKit/537.36 (KHTML, like Gecko) Chrome/79.0.3945.117 Safari/537.36'')]"

record Request =
  meth :: http_method
  req_url :: string
  req_headers :: "(string \<times> string) list"
  req_responseType :: responseType
  req_timeout :: "nat option"

record Response =
  res_status :: int
  res_headers :: "string \<rightharpoonup> string"
  res_data :: string

text \<open>What awaiting a request gives: the promise rejects, or resolves to a response.\<close>

datatype outcome = Threw string | Resolved Response

subsection \<open>Results, options and tasks\<close>

datatype LinkState = OK | BROKEN | SKIPPED

text \<open>An entry of \<open>failureDetails\<close>: a caught error, or the response pushed by
  \<open>failures.push(res!)\<close> (undefined when no request resolved).\<close>

datatype failure = Caught string | Failed "Response option"

record LinkResult =
  url :: string
  status :: "int option"
  state :: LinkState
  parent :: "string option"
  failureDetails :: "failure list option"

text \<open>
  \<open>linksToSkip\<close> is a function of the caller's or a list of regular expressions. The
  function is asynchronous code of the caller's: the model records that it is a
  function, and its answer arrives as an input of the task that awaits it.
\<close>

datatype skip_policy = SkipFunction | SkipPatterns "string list"

record CheckOptions =
  path :: "string list"
  concurrency :: "nat option"
  recurse :: bool
  timeout :: "nat option"
  linksToSkip :: skip_policy

text \<open>The by-value fields of \<open>CrawlOptions\<close>; the shared objects it refers to
  (\<open>results\<close>, \<open>cache\<close>, \<open>delayCache\<close>, \<open>queue\<close>) are the fields of \<open>World\<close>.\<close>

record CrawlOptions =
  opts_url :: URL
  opts_parent :: "string option"
  crawl :: bool
  checkOptions :: CheckOptions
  rootPath :: string

datatype event = Link LinkResult | Pagestart URL

record World =
  results :: "LinkResult list"
  cache :: "string set"
  delayCache :: "string \<rightharpoonup> jsnum"
  queue :: "(CrawlOptions \<times> jsnum option) list"
  events :: "event list"
  requests :: "Request list"

text \<open>An item the link extractor hands to \<open>crawl\<close>: the attribute's text and, when
  it resolved, the URL.\<close>

record ParsedLink =
  link :: string
  link_url :: "URL option"

text \<open>
  The platform and the libraries the program calls, as parameters:
  \<open>Number(s)\<close>; \<open>new Date(s).getTime()\<close> (\<open>None\<close> when it throws);
  \<open>new RegExp(p).test(s)\<close> (\<open>None\<close> when the pattern does not compile);
  \<open>new URL(s)\<close> and \<open>new URL(s, base)\<close> (\<open>None\<close> when they throw); the
  selection \<open>$(selector)\<close> of cheerio on a loaded document, giving the attributes
  of every selected element; and the extractor that \<open>crawl\<close> imports under the name
  \<open>getLinks\<close>, whose items have the fields \<open>link\<close> and \<open>url\<close> (the
  \<open>getLinks\<close> of links.ts, modelled below, returns strings).
\<close>

record Env =
  Number :: "string \<Rightarrow> jsnum"
  Date_getTime :: "string \<Rightarrow> jsnum option"
  RegExp_test :: "string \<Rightarrow> string \<Rightarrow> bool option"
  new_URL :: "string \<Rightarrow> URL option"
  new_URL_base :: "string \<Rightarrow> string \<Rightarrow> URL option"
  cheerio :: "string \<Rightarrow> string \<Rightarrow> (string \<rightharpoonup> string) list"
  imported_getLinks :: "string \<Rightarrow> string \<Rightarrow> ParsedLink list"

section \<open>The predicate isHtml\<close>

text \<open>\<open>s.match(/pat/g)\<close> for a pattern without metacharacters: \<open>pat\<close> occurs in
  \<open>s\<close>, letter for letter.\<close>

primrec match_literal :: "string \<Rightarrow> string \<Rightarrow> bool" where
  "match_literal [] pat = (pat = [])"
| "match_literal (c # cs) pat = (prefix pat (c # cs) \<or> match_literal cs pat)"

definition isHtml :: "Response \<Rightarrow> bool" where
  "isHtml response =
     (let contentType = (case res_headers response ''content-type'' of
                           None \<Rightarrow> [] | Some v \<Rightarrow> v)
      in match_literal contentType ''text/html''
         \<or> match_literal contentType ''application/xhtml+xml'')"

text \<open>The predicate as the specification words it: the same two substrings, matched
  without regard to case.\<close>

definition toLowerCase_char :: "char \<Rightarrow> char" where
  "toLowerCase_char c =
     (let n = (of_char c :: nat) in if 65 \<le> n \<and> n \<le> 90 then char_of (n + 32) else c)"

definition isHtml_spec :: "Response \<Rightarrow> bool" where
  "isHtml_spec response =
     (let contentType = map toLowerCase_char
            (case res_headers response ''content-type'' of None \<Rightarrow> [] | Some v \<Rightarrow> v)
      in match_literal contentType ''text/html''
         \<or> match_literal contentType ''application/xhtml+xml'')"

section \<open>The link extractor of links.ts\<close>

text \<open>The table \<open>linksAttr\<close>, in the order of its keys.\<close>

definition linksAttr :: "(string \<times> string list) list" where
  "linksAttr =
     [(''background'', [''body'']),
      (''cite'', [''blockquote'', ''del'', ''ins'', ''q'']),
      (''data'', [''object'']),
      (''href'', [''a'', ''area'', ''embed'', ''link'']),
      (''icon'', [''command'']),
      (''longdesc'', [''frame'', ''iframe'']),
      (''manifest'', [''html'']),
      (''poster'', [''video'']),
      (''pluginspage'', [''embed'']),
      (''pluginurl'', [''embed'']),
      (''src'', [''audio'', ''embed'', ''frame'', ''iframe'', ''img'', ''input'', ''script'',
                ''source'', ''track'', ''video''])]"

definition normalizeLink :: "Env \<Rightarrow> string \<Rightarrow> string \<Rightarrow> string" where
  "normalizeLink env lnk baseUrl =
     (case new_URL_base env lnk baseUrl of
        Some slink \<Rightarrow> href (set_hash [] slink)
      | None \<Rightarrow> lnk)"

text \<open>\<open>xs.join(',')\<close>.\<close>

fun join_comma :: "string list \<Rightarrow> string" where
  "join_comma [] = []"
| "join_comma [x] = x"
| "join_comma (x # y # ys) = x @ '','' @ join_comma (y # ys)"

text \<open>The values pushed to \<open>links\<close>: for every key of the table, the attribute of
  every selected element (\<open>None\<close> is undefined).\<close>

definition attribute_values :: "Env \<Rightarrow> string \<Rightarrow> string option list" where
  "attribute_values env source =
     concat (map (\<lambda>(attr, tags).
                    map (\<lambda>element. element attr)
                      (cheerio env source
                         (join_comma (map (\<lambda>tag. tag @ ''['' @ attr @ '']'') tags))))
                 linksAttr)"

definition getLinks :: "Env \<Rightarrow> string \<Rightarrow> string \<Rightarrow> string list" where
  "getLinks env source baseUrl =
     map (\<lambda>lnk. normalizeLink env lnk baseUrl)
       (concat (map (\<lambda>v. case v of None \<Rightarrow> [] | Some lnk \<Rightarrow> if lnk = [] then [] else [lnk])
                  (attribute_values env source)))"

text \<open>The item of the extractor as the specification words it: the original text,
  and the resolved URL with its fragment cleared, or none.\<close>

definition normalizeLink_spec :: "Env \<Rightarrow> string \<Rightarrow> string \<Rightarrow> string \<times> string option" where
  "normalizeLink_spec env lnk baseUrl =
     (lnk, map_option (\<lambda>slink. href (set_hash [] slink)) (new_URL_base env lnk baseUrl))"

section \<open>The shared objects\<close>

text \<open>The calls of the source on the shared objects, as updates of the world:
  \<open>delayCache.set\<close>, \<open>delayCache.delete\<close>, \<open>queue.add\<close>, \<open>results.push\<close>,
  \<open>this.emit\<close>, \<open>cache.add\<close> and the sending of a request.\<close>

definition delayCache_set :: "string \<Rightarrow> jsnum \<Rightarrow> World \<Rightarrow> World" where
  "delayCache_set h v w = w\<lparr>delayCache := (delayCache w)(h := Some v)\<rparr>"

definition delayCache_delete :: "string \<Rightarrow> World \<Rightarrow> World" where
  "delayCache_delete h w = w\<lparr>delayCache := (delayCache w)(h := None)\<rparr>"

definition queue_add :: "CrawlOptions \<Rightarrow> jsnum option \<Rightarrow> World \<Rightarrow> World" where
  "queue_add opts delay w = w\<lparr>queue := queue w @ [(opts, delay)]\<rparr>"

definition results_push :: "LinkResult \<Rightarrow> World \<Rightarrow> World" where
  "results_push r w = w\<lparr>results := results w @ [r]\<rparr>"

definition emit :: "event \<Rightarrow> World \<Rightarrow> World" where
  "emit e w = w\<lparr>events := events w @ [e]\<rparr>"

definition cache_add :: "string \<Rightarrow> World \<Rightarrow> World" where
  "cache_add s w = w\<lparr>cache := insert s (cache w)\<rparr>"

definition send :: "Request \<Rightarrow> World \<Rightarrow> World" where
  "send rq w = w\<lparr>requests := requests w @ [rq]\<rparr>"

section \<open>Retry-After\<close>

text \<open>
  \<open>shouldRetryAfter(res, opts)\<close>. The caller never passes an undefined response, so
  the first test of the source is not a case of the model. The result is the number
  the source returns, with the world after the call.
\<close>

text \<open>The deadline computed from the header: seconds from now when \<open>Number\<close>
  reads it, else the time \<open>Date\<close> reads; \<open>None\<close> is the \<open>return 0\<close> of the
  \<open>catch\<close> block.\<close>

definition retry_deadline :: "Env \<Rightarrow> string \<Rightarrow> clock \<Rightarrow> jsnum option" where
  "retry_deadline env retryAfterRaw clk =
     (let retryAfter = js_add (js_mul (Number env retryAfterRaw) (Num 1000)) (Num (fst clk))
      in if isNaN retryAfter then Date_getTime env retryAfterRaw else Some retryAfter)"

definition shouldRetryAfter ::
  "Env \<Rightarrow> Response \<Rightarrow> CrawlOptions \<Rightarrow> clock \<Rightarrow> World \<Rightarrow> jsnum \<times> World" where
  "shouldRetryAfter env res opts clk w =
     (case res_headers res ''retry-after'' of
        None \<Rightarrow> (Num 0, w)
      | Some retryAfterRaw \<Rightarrow>
          if res_status res \<noteq> 429 \<or> retryAfterRaw = [] then (Num 0, w)
          else
            (case retry_deadline env retryAfterRaw clk of
               None \<Rightarrow> (Num 0, w)
             | Some retryAfter \<Rightarrow>
                 let h = host (opts_url opts);
                     w1 = (case delayCache w h of
                             Some currentTimeout \<Rightarrow>
                               if js_gt retryAfter currentTimeout
                               then delayCache_set h retryAfter w
                               else w
                           | None \<Rightarrow> delayCache_set h retryAfter w);
                     w2 = (if truthy retryAfter
                           then queue_add opts (Some (js_sub retryAfter (Num (snd clk)))) w1
                           else w1)
                 in (retryAfter, w2)))"

section \<open>The crawl of one URL\<close>

text \<open>
  \<open>crawl\<close> is an asynchronous function: it runs until it awaits (the caller's skip
  function, or one of up to three requests), and goes on when the awaited value
  arrives; other tasks run in between. The model has one function for each stretch
  between two awaits. A stretch ends with the task done, rejected (an exception left
  \<open>crawl\<close>), or suspended at an await, where \<open>await\<close> holds the local variables the
  rest of the function reads: \<open>res\<close> and \<open>failures\<close>.
\<close>

datatype await =
    AwaitSkip
  | AwaitFirst
  | AwaitRetry405 Response
  | AwaitGetText "Response option" "failure list"

datatype task_status = Done | Rejected | Suspended await

text \<open>The result of a skip gate (the gate of the scheme gives it the status 0, the
  other two give it none), and its push and event.\<close>

definition skip_result :: "CrawlOptions \<Rightarrow> int option \<Rightarrow> LinkResult" where
  "skip_result opts st =
     \<lparr>url = href (opts_url opts), status = st, state = SKIPPED,
      parent = opts_parent opts, failureDetails = None\<rparr>"

definition skipped :: "CrawlOptions \<Rightarrow> int option \<Rightarrow> World \<Rightarrow> World" where
  "skipped opts st w = emit (Link (skip_result opts st)) (results_push (skip_result opts st) w)"

text \<open>The loop body over the extracted links, and the loop.\<close>

definition broken_link :: "CrawlOptions \<Rightarrow> ParsedLink \<Rightarrow> LinkResult" where
  "broken_link opts result =
     \<lparr>url = link result, status = Some 0, state = BROKEN,
      parent = Some (href (opts_url opts)), failureDetails = None\<rparr>"

definition child :: "Env \<Rightarrow> CrawlOptions \<Rightarrow> URL \<Rightarrow> CrawlOptions" where
  "child env opts u =
     (let crawl0 = (recurse (checkOptions opts) \<and> prefix (rootPath opts) (href u));
          crawl1 = (if crawl0
                    then (case new_URL env (rootPath opts) of
                            Some pathUrl \<Rightarrow> host u = host pathUrl
                          | None \<Rightarrow> crawl0)
                    else crawl0)
      in \<lparr>opts_url = u, opts_parent = Some (href (opts_url opts)), crawl = crawl1,
          checkOptions = checkOptions opts, rootPath = rootPath opts\<rparr>)"

definition crawl_link :: "Env \<Rightarrow> CrawlOptions \<Rightarrow> ParsedLink \<Rightarrow> World \<Rightarrow> World" where
  "crawl_link env opts result w =
     (case link_url result of
        None \<Rightarrow> emit (Link (broken_link opts result)) (results_push (broken_link opts result) w)
      | Some u \<Rightarrow>
          if href u \<notin> cache w
          then queue_add (child env opts u) None (cache_add (href u) w)
          else w)"

primrec crawl_links :: "Env \<Rightarrow> CrawlOptions \<Rightarrow> ParsedLink list \<Rightarrow> World \<Rightarrow> World" where
  "crawl_links env opts [] w = w"
| "crawl_links env opts (result # urlResults) w =
     crawl_links env opts urlResults (crawl_link env opts result w)"

text \<open>The classification of the last response (\<open>res\<close> is undefined when every
  request threw), and from there to the end of \<open>crawl\<close>.\<close>

definition link_result :: "CrawlOptions \<Rightarrow> Response option \<Rightarrow> failure list \<Rightarrow> LinkResult" where
  "link_result opts res failures =
     (let status0 = (case res of None \<Rightarrow> 0 | Some r \<Rightarrow> res_status r);
          ok = (status0 \<ge> 200 \<and> status0 < 300)
      in \<lparr>url = href (opts_url opts), status = Some status0,
          state = (if ok then OK else BROKEN), parent = opts_parent opts,
          failureDetails = Some (if ok then failures else failures @ [Failed res])\<rparr>)"

definition finish ::
  "Env \<Rightarrow> CrawlOptions \<Rightarrow> Response option \<Rightarrow> failure list \<Rightarrow> World \<Rightarrow> task_status \<times> World" where
  "finish env opts res failures w =
     (let data = (case res of None \<Rightarrow> [] | Some r \<Rightarrow> res_data r);
          shouldRecurse = (case res of None \<Rightarrow> False | Some r \<Rightarrow> isHtml r);
          result = link_result opts res failures;
          w1 = emit (Link result) (results_push result w)
      in if crawl opts \<and> shouldRecurse
         then (Done, crawl_links env opts (imported_getLinks env data (href (opts_url opts)))
                       (emit (Pagestart (opts_url opts)) w1))
         else (Done, w1))"

text \<open>The third request (GET, read as text), sent when there is no response or a
  response outside 2xx and the task does not crawl.\<close>

definition get_text ::
  "Env \<Rightarrow> CrawlOptions \<Rightarrow> Response option \<Rightarrow> failure list \<Rightarrow> World \<Rightarrow> task_status \<times> World" where
  "get_text env opts res failures w =
     (if (case res of None \<Rightarrow> True | Some r \<Rightarrow> res_status r < 200 \<or> res_status r \<ge> 300)
         \<and> \<not> crawl opts
      then (Suspended (AwaitGetText res failures),
            send \<lparr>meth = GET, req_url = href (opts_url opts), req_headers = headers,
                  req_responseType = Text, req_timeout = timeout (checkOptions opts)\<rparr> w)
      else finish env opts res failures w)"

text \<open>The gate of the delay cache, and the first request.\<close>

definition delay_gate :: "CrawlOptions \<Rightarrow> clock \<Rightarrow> World \<Rightarrow> task_status \<times> World" where
  "delay_gate opts clk w =
     (let first = \<lparr>meth = (if crawl opts then GET else HEAD), req_url = href (opts_url opts),
                   req_headers = headers,
                   req_responseType = (if crawl opts then Text else Stream),
                   req_timeout = timeout (checkOptions opts)\<rparr>
      in case delayCache w (host (opts_url opts)) of
           Some timeout0 \<Rightarrow>
             if js_gt timeout0 (Num (fst clk))
             then (Done, queue_add opts (Some (js_sub timeout0 (Num (snd clk)))) w)
             else (Suspended AwaitFirst,
                   send first (delayCache_delete (host (opts_url opts)) w))
         | None \<Rightarrow> (Suspended AwaitFirst, send first w))"

text \<open>The gate of the list of regular expressions: every pattern is compiled and
  tested; a pattern that does not compile throws out of \<open>crawl\<close>.\<close>

primrec test_all :: "Env \<Rightarrow> string list \<Rightarrow> string \<Rightarrow> bool list option" where
  "test_all env [] s = Some []"
| "test_all env (linkToSkip # rest) s =
     (case RegExp_test env linkToSkip s of
        None \<Rightarrow> None
      | Some b \<Rightarrow> (case test_all env rest s of None \<Rightarrow> None | Some bs \<Rightarrow> Some (b # bs)))"

definition pattern_gate ::
  "Env \<Rightarrow> CrawlOptions \<Rightarrow> clock \<Rightarrow> World \<Rightarrow> task_status \<times> World" where
  "pattern_gate env opts clk w =
     (case linksToSkip (checkOptions opts) of
        SkipPatterns pats \<Rightarrow>
          (case test_all env pats (href (opts_url opts)) of
             None \<Rightarrow> (Rejected, w)
           | Some tests \<Rightarrow>
               if length (filter (\<lambda>m. m) tests) > 0 then (Done, skipped opts None w)
               else delay_gate opts clk w)
      | SkipFunction \<Rightarrow> delay_gate opts clk w)"

text \<open>The start of \<open>crawl\<close>, up to its first await.\<close>

definition crawl_start ::
  "Env \<Rightarrow> CrawlOptions \<Rightarrow> clock \<Rightarrow> World \<Rightarrow> task_status \<times> World" where
  "crawl_start env opts clk w =
     (let proto = protocol (opts_url opts)
      in if proto \<noteq> ''http:'' \<and> proto \<noteq> ''https:'' then (Done, skipped opts (Some 0) w)
         else if linksToSkip (checkOptions opts) = SkipFunction then (Suspended AwaitSkip, w)
         else pattern_gate env opts clk w)"

text \<open>What arrives at an await: the answer of the skip function (\<open>None\<close> when its
  promise rejects), or the outcome of the request.\<close>

datatype input = Answer "bool option" | Reply outcome

text \<open>After a response has arrived and \<open>res\<close> was assigned: \<open>shouldRetryAfter\<close>, then
  the rest.\<close>

definition after_response ::
  "Env \<Rightarrow> CrawlOptions \<Rightarrow> bool \<Rightarrow> Response \<Rightarrow> failure list \<Rightarrow> clock \<Rightarrow> World
    \<Rightarrow> task_status \<times> World" where
  "after_response env opts may405 res failures clk w =
     (let (retryAfter, w1) = shouldRetryAfter env res opts clk w
      in if truthy retryAfter then (Done, w1)
         else if may405 \<and> res_status res = 405
         then (Suspended (AwaitRetry405 res),
               send \<lparr>meth = GET, req_url = href (opts_url opts), req_headers = headers,
                     req_responseType = Stream, req_timeout = timeout (checkOptions opts)\<rparr> w1)
         else get_text env opts (Some res) failures w1)"

fun resume ::
  "Env \<Rightarrow> CrawlOptions \<Rightarrow> await \<Rightarrow> input \<Rightarrow> clock \<Rightarrow> World \<Rightarrow> task_status \<times> World" where
  "resume env opts AwaitSkip (Answer None) clk w = (Rejected, w)"
| "resume env opts AwaitSkip (Answer (Some skip)) clk w =
     (if skip then (Done, skipped opts None w) else pattern_gate env opts clk w)"
| "resume env opts AwaitFirst (Reply (Threw err)) clk w =
     get_text env opts None [Caught err] w"
| "resume env opts AwaitFirst (Reply (Resolved res)) clk w =
     after_response env opts True res [] clk w"
| "resume env opts (AwaitRetry405 res0) (Reply (Threw err)) clk w =
     get_text env opts (Some res0) [Caught err] w"
| "resume env opts (AwaitRetry405 res0) (Reply (Resolved res)) clk w =
     after_response env opts False res [] clk w"
| "resume env opts (AwaitGetText res0 failures) (Reply (Threw ex)) clk w =
     finish env opts res0 (failures @ [Caught ex]) w"
| "resume env opts (AwaitGetText res0 failures) (Reply (Resolved res)) clk w =
     (let (retryAfter, w1) = shouldRetryAfter env res opts clk w
      in if truthy retryAfter then (Done, w1) else finish env opts (Some res) failures w1)"
| "resume env opts _ _ clk w = (Rejected, w)"

text \<open>The value of the variable \<open>res\<close> in the stretch an input starts: the
  response that has just resolved, or, when the request threw, the response kept from
  the request before (none when no request has resolved).\<close>

fun current_res :: "await \<Rightarrow> input \<Rightarrow> Response option" where
  "current_res aw (Reply (Resolved res)) = Some res"
| "current_res (AwaitRetry405 res0) (Reply (Threw err)) = Some res0"
| "current_res (AwaitGetText res0 failures) (Reply (Threw ex)) = res0"
| "current_res aw inp = None"

section \<open>The queue and the run\<close>

text \<open>
  Modelled from the spec: the class \<open>Queue\<close> (its file is not among the sources). It
  holds the entries added and not yet started, each with its delay, and starts at most
  \<open>concurrency\<close> tasks at a time; \<open>onIdle\<close> resolves when nothing is waiting and
  nothing runs. The model does not follow wall-clock time: an entry may be started at
  any step at which a place is free, in any order, so every order the queue can
  produce is among the schedules of the model. A task that is rejected leaves the
  queue and is recorded in \<open>rejected\<close>.

  A schedule is a list of choices: start the entry at a position of the queue, or
  deliver an awaited value to the task at a position of the running tasks. Each choice
  carries the clock values the stretch of code it runs will read.
\<close>

record Run =
  world :: World
  running :: "(CrawlOptions \<times> await) list"
  rejected :: "CrawlOptions list"
  capacity :: nat

datatype choice = Start nat clock | Deliver nat input clock

fun accepts :: "await \<Rightarrow> input \<Rightarrow> bool" where
  "accepts AwaitSkip (Answer a) = True"
| "accepts AwaitSkip (Reply out) = False"
| "accepts aw (Answer a) = False"
| "accepts aw (Reply out) = True"

definition settle :: "CrawlOptions \<Rightarrow> task_status \<times> World \<Rightarrow> Run \<Rightarrow> Run" where
  "settle opts out r =
     (case fst out of
        Done \<Rightarrow> r\<lparr>world := snd out\<rparr>
      | Rejected \<Rightarrow> r\<lparr>world := snd out, rejected := rejected r @ [opts]\<rparr>
      | Suspended aw \<Rightarrow> r\<lparr>world := snd out, running := running r @ [(opts, aw)]\<rparr>)"

definition remove_nth :: "nat \<Rightarrow> 'a list \<Rightarrow> 'a list" where
  "remove_nth i xs = take i xs @ drop (Suc i) xs"

fun exec :: "Env \<Rightarrow> choice \<Rightarrow> Run \<Rightarrow> Run option" where
  "exec env (Start i clk) r =
     (if i < length (queue (world r)) \<and> length (running r) < capacity r
      then let opts = fst (queue (world r) ! i);
               w0 = (world r)\<lparr>queue := remove_nth i (queue (world r))\<rparr>
           in Some (settle opts (crawl_start env opts clk w0) r)
      else None)"
| "exec env (Deliver i inp clk) r =
     (if i < length (running r) \<and> accepts (snd (running r ! i)) inp
      then let opts = fst (running r ! i); aw = snd (running r ! i);
               r0 = r\<lparr>running := remove_nth i (running r)\<rparr>
           in Some (settle opts (resume env opts aw inp clk (world r)) r0)
      else None)"

primrec run :: "Env \<Rightarrow> choice list \<Rightarrow> Run \<Rightarrow> Run option" where
  "run env [] r = Some r"
| "run env (c # cs) r = (case exec env c r of None \<Rightarrow> None | Some r' \<Rightarrow> run env cs r')"

definition idle :: "Run \<Rightarrow> bool" where
  "idle r = (queue (world r) = [] \<and> running r = [])"

section \<open>check\<close>

text \<open>
  \<open>check\<close> after \<open>processOptions\<close> (which reads the file system and is not modelled):
  \<open>path\<close> is the list of paths it returned. When no path starts with \<open>http\<close> the
  paths are rewritten to URLs of the local server, \<open>port\<close> being the decimal text of
  the port chosen. Every path is parsed, its \<open>href\<close> is added to the cache and a task
  is added to the queue; \<open>new URL\<close> throwing rejects \<open>check\<close>. After \<open>onIdle\<close> the
  result is built from \<open>results\<close>.
\<close>

definition local_path :: "string \<Rightarrow> string \<Rightarrow> string" where
  "local_path port p =
     ''http://localhost:'' @ port @ ''/'' @ (if prefix ''/'' p then drop 1 p else p)"

definition effective_options :: "string \<Rightarrow> CheckOptions \<Rightarrow> CheckOptions" where
  "effective_options port options =
     (if find (prefix ''http'') (path options) = None
      then options\<lparr>path := map (local_path port) (path options)\<rparr>
      else options)"

primrec add_paths :: "Env \<Rightarrow> CheckOptions \<Rightarrow> string list \<Rightarrow> World \<Rightarrow> World option" where
  "add_paths env options [] w = Some w"
| "add_paths env options (p # ps) w =
     (case new_URL env p of
        None \<Rightarrow> None
      | Some u \<Rightarrow>
          add_paths env options ps
            (queue_add \<lparr>opts_url = u, opts_parent = None, crawl = True,
                        checkOptions = options, rootPath = p\<rparr> None
               (cache_add (href u) w)))"

definition empty_world :: World where
  "empty_world = \<lparr>results = [], cache = {}, delayCache = Map.empty, queue = [],
                  events = [], requests = []\<rparr>"

definition initial :: "Env \<Rightarrow> string \<Rightarrow> CheckOptions \<Rightarrow> Run option" where
  "initial env port opts =
     (let options = effective_options port opts
      in case add_paths env options (path options) empty_world of
           None \<Rightarrow> None
         | Some w \<Rightarrow>
             Some \<lparr>world = w, running = [], rejected = [],
                   capacity = (case concurrency options of
                                 None \<Rightarrow> 100 | Some n \<Rightarrow> if n = 0 then 100 else n)\<rparr>)"

record CrawlResult =
  links :: "LinkResult list"
  passed :: bool

definition crawl_result :: "Run \<Rightarrow> CrawlResult" where
  "crawl_result r =
     \<lparr>links = results (world r),
      passed = (length (filter (\<lambda>x. state x = BROKEN) (results (world r))) = 0)\<rparr>"

text \<open>\<open>check\<close> under a schedule: \<open>None\<close> when \<open>check\<close> rejects or the schedule does not
  bring the queue to idle, and the value returned otherwise.\<close>

definition check :: "Env \<Rightarrow> string \<Rightarrow> CheckOptions \<Rightarrow> choice list \<Rightarrow> CrawlResult option" where
  "check env port opts schedule =
     (case initial env port opts of
        None \<Rightarrow> None
      | Some r0 \<Rightarrow>
          (case run env schedule r0 of
             None \<Rightarrow> None
           | Some r \<Rightarrow> if idle r then Some (crawl_result r) else None))"

section \<open>A small site, for the examples\<close>

text \<open>
  An environment in which every library function is a table, right for the strings the
  examples use: \<open>Number\<close> reads \<open>1\<close> and \<open>8\<close> and gives \<open>NaN\<close> on the word
  \<open>soon\<close>; \<open>Date\<close> reads the date of the epoch and gives \<open>NaN\<close> on \<open>soon\<close> (it
  never throws); a regular expression is a literal, and \<open>(\<close> does not compile; the
  URLs \<open>http://h/\<close>, \<open>http://h/a\<close> and \<open>mailto:x@y\<close> parse, and a URL whose host
  starts with an unclosed bracket does not.
\<close>

definition page_h :: URL where
  "page_h = \<lparr>protocol = ''http:'', host = ''h'', unfragmented = ''http://h/'', fragment = None\<rparr>"

definition url_a :: URL where
  "url_a = \<lparr>protocol = ''http:'', host = ''h'', unfragmented = ''http://h/a'', fragment = None\<rparr>"

definition url_mail :: URL where
  "url_mail = \<lparr>protocol = ''mailto:'', host = [], unfragmented = ''mailto:x@y'', fragment = None\<rparr>"

definition Number0 :: "string \<Rightarrow> jsnum" where
  "Number0 s = (if s = ''1'' then Num 1 else if s = ''8'' then Num 8 else NaN)"

definition Date0 :: "string \<Rightarrow> jsnum option" where
  "Date0 s = (if s = ''Thu, 01 Jan 1970 00:00:00 GMT'' then Some (Num 0) else Some NaN)"

definition RegExp0 :: "string \<Rightarrow> string \<Rightarrow> bool option" where
  "RegExp0 p s = (if p = ''('' then None else Some (match_literal s p))"

definition URL0 :: "string \<Rightarrow> URL option" where
  "URL0 s = (if s = ''http://h/'' then Some page_h
             else if s = ''http://h/a'' then Some url_a
             else if s = ''mailto:x@y'' then Some url_mail
             else None)"

definition URL_base0 :: "string \<Rightarrow> string \<Rightarrow> URL option" where
  "URL_base0 s base =
     (if base = ''http://h/'' \<and> s = ''/a#top'' then Some (url_a\<lparr>fragment := Some ''top''\<rparr>)
      else if base = ''http://h/'' \<and> s = ''/a'' then Some url_a
      else URL0 s)"

definition cheerio0 :: "string \<Rightarrow> string \<Rightarrow> (string \<rightharpoonup> string) list" where
  "cheerio0 source selector =
     (if source = ''doc'' \<and> selector = ''a[href],area[href],embed[href],link[href]''
      then [[''href'' \<mapsto> ''/a#top''], [''href'' \<mapsto> []], [''href'' \<mapsto> ''http://[#z'']]
      else [])"

definition getLinks0 :: "string \<Rightarrow> string \<Rightarrow> ParsedLink list" where
  "getLinks0 source base =
     (if source = ''doc''
      then [\<lparr>link = ''/a'', link_url = Some url_a\<rparr>,
            \<lparr>link = ''mailto:x@y'', link_url = Some url_mail\<rparr>,
            \<lparr>link = ''/a'', link_url = Some url_a\<rparr>,
            \<lparr>link = ''http://['', link_url = None\<rparr>]
      else [])"

definition env0 :: Env where
  "env0 = \<lparr>Number = Number0, Date_getTime = Date0, RegExp_test = RegExp0, new_URL = URL0,
           new_URL_base = URL_base0, cheerio = cheerio0, imported_getLinks = getLinks0\<rparr>"

definition options0 :: CheckOptions where
  "options0 = \<lparr>path = [''http://h/''], concurrency = None, recurse = True, timeout = None,
               linksToSkip = SkipPatterns []\<rparr>"

text \<open>Three tasks: the page, crawled; the link to \<open>/a\<close>, checked only; the mail
  address.\<close>

definition task_page :: CrawlOptions where
  "task_page = \<lparr>opts_url = page_h, opts_parent = None, crawl = True,
                checkOptions = options0, rootPath = ''http://h/''\<rparr>"

definition task_a :: CrawlOptions where
  "task_a = \<lparr>opts_url = url_a, opts_parent = Some ''http://h/'', crawl = False,
             checkOptions = options0, rootPath = ''http://h/''\<rparr>"

definition task_mail :: CrawlOptions where
  "task_mail = \<lparr>opts_url = url_mail, opts_parent = Some ''http://h/'', crawl = False,
                checkOptions = options0, rootPath = ''http://h/''\<rparr>"

text \<open>Responses: a status, the headers given, no body.\<close>

definition response :: "int \<Rightarrow> (string \<times> string) list \<Rightarrow> string \<Rightarrow> Response" where
  "response st hs body = \<lparr>res_status = st, res_headers = map_of hs, res_data = body\<rparr>"

definition upper_html :: Response where
  "upper_html = response 200 [(''content-type'', ''Text/HTML'')] []"

definition two_paths :: CheckOptions where
  "two_paths = options0\<lparr>path := [''http://h/'', ''http://h/a'']\<rparr>"

definition too_many :: "string \<Rightarrow> Response" where
  "too_many retryAfter = response 429 [(''retry-after'', retryAfter)] []"

section \<open>The invariants of a run\<close>

text \<open>A result is classified when its state is OK exactly for a status from 200 to
  299.\<close>

definition classified :: "LinkResult \<Rightarrow> bool" where
  "classified x = (state x = OK \<longleftrightarrow> (\<exists>n. status x = Some n \<and> 200 \<le> n \<and> n < 300))"

definition all_classified :: "World \<Rightarrow> bool" where
  "all_classified w = list_all classified (results w)"

text \<open>
  What the proof of uniqueness asks of the library: the \<open>href\<close> of a URL that
  \<open>new URL\<close> returned parses again, the \<open>href\<close> of every URL the extractor resolved
  parses, and the text of a link the extractor could not resolve does not parse on
  its own.
\<close>

definition valid_href :: "Env \<Rightarrow> string \<Rightarrow> bool" where
  "valid_href env s = (new_URL env s \<noteq> None)"

definition url_sane :: "Env \<Rightarrow> bool" where
  "url_sane env =
     ((\<forall>p u. new_URL env p = Some u \<longrightarrow> valid_href env (href u))
      \<and> (\<forall>source base it. it \<in> set (imported_getLinks env source base) \<longrightarrow>
            (case link_url it of
               Some u \<Rightarrow> valid_href env (href u)
             | None \<Rightarrow> \<not> valid_href env (link it))))"

text \<open>The \<open>href\<close>s of the starting paths, after the rewriting of local paths.\<close>

definition start_hrefs :: "Env \<Rightarrow> string \<Rightarrow> CheckOptions \<Rightarrow> string option list" where
  "start_hrefs env port opts =
     map (\<lambda>p. map_option href (new_URL env p)) (path (effective_options port opts))"

text \<open>
  For a string \<open>s\<close>: its results, the entries of the queue for it, and the running
  and rejected tasks for it. A world is accounted for, given the number \<open>n s\<close> of
  tasks for \<open>s\<close> outside the queue, when every string of the cache parses and has
  exactly one task or result, and a string outside the cache has no task and, if it
  parses, no result.
\<close>

definition results_for :: "string \<Rightarrow> World \<Rightarrow> nat" where
  "results_for s w = length (filter (\<lambda>x. url x = s) (results w))"

definition queued_for :: "string \<Rightarrow> World \<Rightarrow> nat" where
  "queued_for s w = length (filter (\<lambda>e. href (opts_url (fst e)) = s) (queue w))"

definition held_for :: "Run \<Rightarrow> string \<Rightarrow> nat" where
  "held_for r s = length (filter (\<lambda>e. href (opts_url (fst e)) = s) (running r))
                  + length (filter (\<lambda>t. href (opts_url t) = s) (rejected r))"

definition accounted :: "Env \<Rightarrow> (string \<Rightarrow> nat) \<Rightarrow> World \<Rightarrow> bool" where
  "accounted env n w =
     (\<forall>s. (s \<in> cache w \<longrightarrow>
               valid_href env s \<and> n s + queued_for s w + results_for s w = 1)
          \<and> (s \<notin> cache w \<longrightarrow>
               n s = 0 \<and> queued_for s w = 0 \<and> (valid_href env s \<longrightarrow> results_for s w = 0)))"

text \<open>While a stretch of a task runs, the task is in hand: counted with the tasks
  outside the queue. When the stretch is done the task has left a result or is in the
  queue again; otherwise it is still counted.\<close>

definition in_hand :: "CrawlOptions \<Rightarrow> (string \<Rightarrow> nat) \<Rightarrow> string \<Rightarrow> nat" where
  "in_hand opts n = n(href (opts_url opts) := Suc (n (href (opts_url opts))))"

definition settled :: "Env \<Rightarrow> CrawlOptions \<Rightarrow> (string \<Rightarrow> nat) \<Rightarrow> task_status \<times> World \<Rightarrow> bool" where
  "settled env opts n out =
     (case fst out of
        Done \<Rightarrow> accounted env n (snd out)
      | Rejected \<Rightarrow> accounted env (in_hand opts n) (snd out)
      | Suspended aw \<Rightarrow> accounted env (in_hand opts n) (snd out))"

definition conserved :: "Env \<Rightarrow> Run \<Rightarrow> bool" where
  "conserved env r = accounted env (held_for r) (world r)"

text \<open>The examples: a plain 200, a page of HTML whose links are those of
  \<open>getLinks0\<close>, a 404, a 405, a task with a pattern to skip and one with a function
  to skip, the same path given twice, and a schedule that crawls the page and checks
  its links.\<close>

definition ok_plain :: Response where
  "ok_plain = response 200 [] []"

definition page_doc :: Response where
  "page_doc = response 200 [(''content-type'', ''text/html'')] ''doc''"

definition not_found :: Response where
  "not_found = response 404 [] []"

definition not_allowed :: Response where
  "not_allowed = response 405 [] []"

definition task_skip_a :: CrawlOptions where
  "task_skip_a = task_a\<lparr>checkOptions := options0\<lparr>linksToSkip := SkipPatterns [''/a'']\<rparr>\<rparr>"

definition task_fn_a :: CrawlOptions where
  "task_fn_a = task_a\<lparr>checkOptions := options0\<lparr>linksToSkip := SkipFunction\<rparr>\<rparr>"

definition same_path_twice :: CheckOptions where
  "same_path_twice = options0\<lparr>path := [''http://h/a'', ''http://h/a'']\<rparr>"

definition site_schedule :: "choice list" where
  "site_schedule =
     [Start 0 (0, 0), Deliver 0 (Reply (Resolved page_doc)) (0, 0),
      Start 0 (0, 0), Deliver 0 (Reply (Resolved not_found)) (0, 0),
      Start 0 (0, 0)]"

definition site_start :: Run where
  "site_start = \<lparr>world = empty_world\<lparr>cache := {''http://h/''}, queue := [(task_page, None)]\<rparr>,
                 running = [], rejected = [], capacity = 100\<rparr>"

definition site_end :: Run where
  "site_end = the (run env0 site_schedule site_start)"

section \<open>Facts used throughout\<close>

lemmas world_ops = delayCache_set_def delayCache_delete_def queue_add_def results_push_def
  emit_def cache_add_def send_def

lemmas site0 = env0_def Number0_def Date0_def RegExp0_def URL0_def URL_base0_def
  cheerio0_def getLinks0_def page_h_def url_a_def url_mail_def response_def empty_world_def

lemmas crawl_defs = after_response_def get_text_def finish_def isHtml_def shouldRetryAfter_def
  retry_deadline_def delay_gate_def pattern_gate_def crawl_start_def skipped_def crawl_link_def
  link_result_def skip_result_def broken_link_def child_def href_def Let_def

lemmas run_defs = initial_def effective_options_def settle_def remove_nth_def idle_def
  check_def crawl_result_def local_path_def

lemma match_literal_sublist: "match_literal s pat \<longleftrightarrow> sublist pat s"
  by (induction s) (auto simp: sublist_Cons_right)

section \<open>isHtml\<close>

text \<open>
  C6, as the code has it: \<open>isHtml\<close> holds exactly when the response has a
  \<open>content-type\<close> header in which \<open>text/html\<close> or \<open>application/xhtml+xml\<close> occurs
  letter for letter, upper and lower case being different letters.
\<close>

theorem isHtml_case_sensitive:
  "isHtml res \<longleftrightarrow>
     (\<exists>ct. res_headers res ''content-type'' = Some ct
        \<and> (sublist ''text/html'' ct \<or> sublist ''application/xhtml+xml'' ct))"
  by (auto simp: isHtml_def match_literal_sublist split: option.splits)

text \<open>The header \<open>Text/HTML\<close> is HTML for the predicate of the specification and is
  not for \<open>isHtml\<close>.\<close>

theorem isHtml_case_counterexample:
  "isHtml_spec upper_html \<and> \<not> isHtml upper_html"
  unfolding upper_html_def response_def isHtml_spec_def isHtml_def by code_simp

section \<open>Retry-After\<close>

lemma shouldRetryAfter_deadline:
  assumes "res_status res = 429" "res_headers res ''retry-after'' = Some raw" "raw \<noteq> []"
    "retry_deadline env raw clk = Some (Num d)" "d \<noteq> 0"
  shows "shouldRetryAfter env res opts clk w =
     (Num d, w\<lparr>delayCache := (delayCache w)(host (opts_url opts) \<mapsto>
                  (case delayCache w (host (opts_url opts)) of
                     None \<Rightarrow> Num d
                   | Some cur \<Rightarrow> if js_gt (Num d) cur then Num d else cur)),
               queue := queue w @ [(opts, Some (Num (d - snd clk)))]\<rparr>)"
  using assms
  by (auto simp: shouldRetryAfter_def world_ops Let_def fun_upd_idem split: option.splits)

text \<open>
  C4, as the code has it: when a response with status 429 arrives at any of the three
  requests, its \<open>retry-after\<close> header is not empty and the deadline computed from it is
  a number other than 0, the task is done for this attempt, the same task is added to
  the queue with the delay \<open>deadline - now\<close>, and nothing else changes but the delay
  cache (no result, no event, no request): the host's entry becomes the deadline when
  there was none or the deadline is greater than it, and stays as it was otherwise.
\<close>

theorem retry_after_reschedules:
  assumes "res_status res = 429" "res_headers res ''retry-after'' = Some raw" "raw \<noteq> []"
    "retry_deadline env raw clk = Some (Num d)" "d \<noteq> 0"
    "accepts aw (Reply (Resolved res))"
  shows "resume env opts aw (Reply (Resolved res)) clk w =
     (Done, w\<lparr>delayCache := (delayCache w)(host (opts_url opts) \<mapsto>
                  (case delayCache w (host (opts_url opts)) of
                     None \<Rightarrow> Num d
                   | Some cur \<Rightarrow> if js_gt (Num d) cur then Num d else cur)),
               queue := queue w @ [(opts, Some (Num (d - snd clk)))]\<rparr>)"
  using assms(5,6) shouldRetryAfter_deadline[OF assms(1-5), of opts w]
  by (cases aw) (simp_all add: after_response_def)

theorem retry_after_reschedules_witness:
  "res_status (too_many ''1'') = 429
   \<and> res_headers (too_many ''1'') ''retry-after'' = Some ''1''
   \<and> retry_deadline env0 ''1'' (1000, 1000) = Some (Num 2000)
   \<and> accepts AwaitFirst (Reply (Resolved (too_many ''1'')))
   \<and> resume env0 task_a AwaitFirst (Reply (Resolved (too_many ''1''))) (1000, 1000) empty_world
       = (Done, empty_world\<lparr>delayCache := [''h'' \<mapsto> Num 2000],
                             queue := [(task_a, Some (Num 1000))]\<rparr>)"
  using retry_after_reschedules[of "too_many ''1''" "''1''" env0 "(1000, 1000)" 2000
      AwaitFirst task_a empty_world]
  by (simp add: retry_deadline_def site0 too_many_def task_a_def options0_def)

text \<open>
  Two tasks for the host \<open>h\<close> are in flight. The first is answered 429 with
  \<open>Retry-After: 8\<close> at time 1000, the second 429 with \<open>Retry-After: 1\<close>: its deadline
  is 2000, the delay cache keeps 9000, and both tasks wait in the queue with no
  result.
\<close>

theorem retry_after_counterexample:
  "retry_deadline env0 ''1'' (1000, 1000) = Some (Num 2000)
   \<and> map_option (\<lambda>r. (delayCache (world r) ''h'', map snd (queue (world r)), results (world r)))
       (case initial env0 ''5000'' two_paths of
          None \<Rightarrow> None
        | Some r0 \<Rightarrow>
            run env0 [Start 0 (0, 0), Start 0 (0, 0),
                      Deliver 0 (Reply (Resolved (too_many ''8''))) (1000, 1000),
                      Deliver 0 (Reply (Resolved (too_many ''1''))) (1000, 1000)] r0)
     = Some (Some (Num 9000), [Some (Num 8000), Some (Num 1000)], [])"
  by (simp add: crawl_defs world_ops site0 two_paths_def too_many_def options0_def run_defs)

text \<open>
  C5 at a failing input: the page answers 429 with \<open>Retry-After: soon\<close>, which
  neither \<open>Number\<close> nor \<open>Date\<close> reads. The result is BROKEN with status 429, and the
  delay cache has an entry for the host: \<open>NaN\<close>.
\<close>

theorem unparsable_retry_after_recorded:
  "fst (resume env0 task_page AwaitFirst (Reply (Resolved (too_many ''soon''))) (1000, 1000)
          empty_world) = Done
   \<and> map (\<lambda>r. (url r, status r, state r))
        (results (snd (resume env0 task_page AwaitFirst (Reply (Resolved (too_many ''soon'')))
                         (1000, 1000) empty_world)))
       = [(''http://h/'', Some 429, BROKEN)]
   \<and> delayCache (snd (resume env0 task_page AwaitFirst (Reply (Resolved (too_many ''soon'')))
                        (1000, 1000) empty_world)) ''h'' = Some NaN"
  by (simp add: crawl_defs world_ops site0 too_many_def task_page_def options0_def)

section \<open>Recursion needs a content type\<close>

lemma shouldRetryAfter_frame:
  assumes "shouldRetryAfter env res opts clk w = (ra, w')"
  shows "results w' = results w \<and> events w' = events w \<and> cache w' = cache w
         \<and> requests w' = requests w
         \<and> (if truthy ra then \<exists>d. queue w' = queue w @ [(opts, Some d)] else queue w' = queue w)"
  using assms
  by (auto simp: shouldRetryAfter_def world_ops Let_def split: option.splits if_splits)

lemma finish_not_html:
  assumes "\<not> isHtml res"
  shows "finish env opts (Some res) fs w
           = (Done, emit (Link (link_result opts (Some res) fs))
                      (results_push (link_result opts (Some res) fs) w))"
  using assms by (simp add: finish_def Let_def)

lemma get_text_not_html:
  assumes "\<not> isHtml res" "get_text env opts (Some res) fs w = (st, w')"
  shows "cache w' = cache w \<and> queue w' = queue w
         \<and> (events w' = events w \<or> events w' = events w @ [Link (link_result opts (Some res) fs)])"
  using assms(2) finish_not_html[OF assms(1), of env opts fs w]
  by (auto simp: get_text_def world_ops split: if_splits)

lemma resolved_not_html:
  assumes nh: "\<not> isHtml res" and acc: "accepts aw (Reply (Resolved res))"
    and step: "resume env opts aw (Reply (Resolved res)) clk w = (st, w')"
  shows "cache w' = cache w
         \<and> (events w' = events w \<or> (\<exists>x. events w' = events w @ [Link x]))
         \<and> (queue w' = queue w \<or> (\<exists>d. queue w' = queue w @ [(opts, Some d)]))"
proof -
  obtain ra w1 where sra: "shouldRetryAfter env res opts clk w = (ra, w1)"
    by (cases "shouldRetryAfter env res opts clk w")
  note fr = shouldRetryAfter_frame[OF sra]
  show ?thesis
  proof (cases "truthy ra")
    case True
    then have "w' = w1" using acc step sra
      by (cases aw) (simp_all add: after_response_def)
    then show ?thesis using fr True by auto
  next
    case False
    then have q: "queue w1 = queue w" using fr by simp
    show ?thesis
    proof (cases "aw = AwaitFirst \<and> res_status res = 405")
      case True
      then have "w' = send \<lparr>meth = GET, req_url = href (opts_url opts), req_headers = headers,
                     req_responseType = Stream, req_timeout = timeout (checkOptions opts)\<rparr> w1"
        using step sra False by (auto simp: after_response_def)
      then show ?thesis using fr q by (simp add: send_def)
    next
      case notfirst: False
      have "(\<exists>fs. get_text env opts (Some res) fs w1 = (st, w'))
            \<or> (\<exists>fs. finish env opts (Some res) fs w1 = (st, w'))"
        using acc step sra False notfirst
        by (cases aw) (auto simp: after_response_def)
      then show ?thesis
      proof
        assume "\<exists>fs. get_text env opts (Some res) fs w1 = (st, w')"
        then obtain fs where "get_text env opts (Some res) fs w1 = (st, w')" ..
        from get_text_not_html[OF nh this] show ?thesis using fr q by auto
      next
        assume "\<exists>fs. finish env opts (Some res) fs w1 = (st, w')"
        then obtain fs where "finish env opts (Some res) fs w1 = (st, w')" ..
        then have "w' = emit (Link (link_result opts (Some res) fs))
                          (results_push (link_result opts (Some res) fs) w1)"
          using finish_not_html[OF nh, of env opts fs w1] by simp
        then show ?thesis using fr q by (auto simp: world_ops)
      qed
    qed
  qed
qed

lemma threw_not_html:
  assumes nh: "\<not> isHtml r" and acc: "accepts aw (Reply (Threw err))"
    and cur: "current_res aw (Reply (Threw err)) = Some r"
    and step: "resume env opts aw (Reply (Threw err)) clk w = (st, w')"
  shows "cache w' = cache w
         \<and> (events w' = events w \<or> (\<exists>x. events w' = events w @ [Link x]))
         \<and> queue w' = queue w"
proof (cases aw)
  case AwaitSkip
  then show ?thesis using acc by simp
next
  case AwaitFirst
  then show ?thesis using cur by simp
next
  case (AwaitRetry405 res0)
  then have "get_text env opts (Some r) [Caught err] w = (st, w')" using cur step by simp
  from get_text_not_html[OF nh this] show ?thesis by auto
next
  case (AwaitGetText res0 fs)
  then have "finish env opts (Some r) (fs @ [Caught err]) w = (st, w')" using cur step by simp
  then have "w' = emit (Link (link_result opts (Some r) (fs @ [Caught err])))
                    (results_push (link_result opts (Some r) (fs @ [Caught err])) w)"
    using finish_not_html[OF nh, of env opts "fs @ [Caught err]" w] by simp
  then show ?thesis by (auto simp: world_ops)
qed

text \<open>
  C10: a response with no \<open>content-type\<close> header is not HTML for \<open>isHtml\<close>, and the
  end of \<open>crawl\<close> with it pushes the result and fires its \<open>link\<close> event and does
  nothing more. So in every stretch of \<open>crawl\<close> in which \<open>res\<close> is such a response
  (it has just resolved, or the request after it threw and it was kept), for a task
  that crawls as for one that does not, nothing is added to the cache, no event is
  fired but at most one \<open>link\<close> event, and nothing is added to the queue but at most
  the task itself with a delay (the reschedule of a 429): no \<open>pagestart\<close>, no child.
\<close>

theorem no_content_type_no_recursion:
  assumes "res_headers r ''content-type'' = None" "accepts aw inp"
    "current_res aw inp = Some r" "resume env opts aw inp clk w = (st, w')"
  shows "\<not> isHtml r
         \<and> finish env opts (Some r) fs w0
             = (Done, emit (Link (link_result opts (Some r) fs))
                        (results_push (link_result opts (Some r) fs) w0))
         \<and> cache w' = cache w
         \<and> (events w' = events w \<or> (\<exists>x. events w' = events w @ [Link x]))
         \<and> (queue w' = queue w \<or> (\<exists>d. queue w' = queue w @ [(opts, Some d)]))"
proof -
  have nh: "\<not> isHtml r" using assms(1) by (simp add: isHtml_def)
  have "cache w' = cache w
         \<and> (events w' = events w \<or> (\<exists>x. events w' = events w @ [Link x]))
         \<and> (queue w' = queue w \<or> (\<exists>d. queue w' = queue w @ [(opts, Some d)]))"
  proof (cases inp)
    case (Answer a)
    then show ?thesis using assms(3) by (cases aw) simp_all
  next
    case (Reply out)
    show ?thesis
    proof (cases out)
      case (Threw err)
      then show ?thesis using threw_not_html[OF nh, of aw err env opts clk w st w'] assms(2-4) Reply
        by simp
    next
      case (Resolved res)
      then have "res = r" using assms(3) Reply by simp
      then show ?thesis using resolved_not_html[OF nh, of aw env opts clk w st w'] assms(2,4)
          Reply Resolved by simp
    qed
  qed
  then show ?thesis using nh finish_not_html[OF nh] by simp
qed

theorem no_content_type_no_recursion_witness:
  "crawl task_page \<and> recurse (checkOptions task_page)
   \<and> res_headers not_allowed ''content-type'' = None
   \<and> accepts (AwaitRetry405 not_allowed) (Reply (Threw ''reset''))
   \<and> current_res (AwaitRetry405 not_allowed) (Reply (Threw ''reset'')) = Some not_allowed
   \<and> \<not> isHtml not_allowed
   \<and> resume env0 task_page (AwaitRetry405 not_allowed) (Reply (Threw ''reset'')) (0, 0)
        empty_world
       = (Done, empty_world\<lparr>
            results := [link_result task_page (Some not_allowed) [Caught ''reset'']],
            events := [Link (link_result task_page (Some not_allowed) [Caught ''reset''])]\<rparr>)"
  using no_content_type_no_recursion[of not_allowed "AwaitRetry405 not_allowed"
      "Reply (Threw ''reset'')" env0 task_page "(0, 0)" empty_world Done
      "empty_world\<lparr>
            results := [link_result task_page (Some not_allowed) [Caught ''reset'']],
            events := [Link (link_result task_page (Some not_allowed) [Caught ''reset''])]\<rparr>"]
  by (simp add: get_text_def finish_def isHtml_def world_ops site0 not_allowed_def
      task_page_def options0_def Let_def)

section \<open>The skip gates\<close>

lemma skipped_frame:
  "skipped opts st w = w\<lparr>results := results w @ [skip_result opts st],
                         events := events w @ [Link (skip_result opts st)]\<rparr>"
  by (simp add: skipped_def world_ops)

text \<open>What the three gates do, for every task: a skipped task is done at once, the
  world changes by one result and its event, and before the caller's function has
  answered nothing is sent.\<close>

lemma skip_gates:
  "(protocol (opts_url opts) \<noteq> ''http:'' \<and> protocol (opts_url opts) \<noteq> ''https:''
      \<longrightarrow> crawl_start env opts clk w = (Done, skipped opts (Some 0) w))
   \<and> ((protocol (opts_url opts) = ''http:'' \<or> protocol (opts_url opts) = ''https:'')
        \<and> linksToSkip (checkOptions opts) = SkipFunction
      \<longrightarrow> crawl_start env opts clk w = (Suspended AwaitSkip, w))
   \<and> resume env opts AwaitSkip (Answer (Some True)) clk w = (Done, skipped opts None w)
   \<and> ((protocol (opts_url opts) = ''http:'' \<or> protocol (opts_url opts) = ''https:'')
        \<and> linksToSkip (checkOptions opts) = SkipPatterns pats
        \<and> test_all env pats (href (opts_url opts)) = Some tests \<and> True \<in> set tests
      \<longrightarrow> crawl_start env opts clk w = (Done, skipped opts None w))
   \<and> skipped opts st w = w\<lparr>results := results w @ [skip_result opts st],
                              events := events w @ [Link (skip_result opts st)]\<rparr>
   \<and> state (skip_result opts st) = SKIPPED \<and> status (skip_result opts st) = st
   \<and> url (skip_result opts st) = href (opts_url opts)
   \<and> parent (skip_result opts st) = opts_parent opts"
proof -
  have "True \<in> set tests \<Longrightarrow> filter (\<lambda>m. m) tests \<noteq> []"
    by (induction tests) auto
  then show ?thesis
    by (auto simp: crawl_start_def pattern_gate_def skipped_frame skip_result_def Let_def)
qed

text \<open>
  C7 at failing inputs. The task for \<open>http://h/a\<close> with the pattern \<open>/a\<close> to skip is
  done at its start with one result, SKIPPED, and nothing sent or added to the queue
  or the cache, as the claim says; but the result has no status. The same task with
  a function to skip waits for the function with nothing sent, and when the function
  answers true it is done with one result, SKIPPED, again with no status. The gate
  of the scheme, for the mail address, gives the status 0.
\<close>

theorem skip_status_missing:
  "crawl_start env0 task_skip_a (0, 0) empty_world
     = (Done, empty_world\<lparr>results := [skip_result task_skip_a None],
                           events := [Link (skip_result task_skip_a None)]\<rparr>)
   \<and> crawl_start env0 task_fn_a (0, 0) empty_world = (Suspended AwaitSkip, empty_world)
   \<and> resume env0 task_fn_a AwaitSkip (Answer (Some True)) (0, 0) empty_world
     = (Done, empty_world\<lparr>results := [skip_result task_fn_a None],
                           events := [Link (skip_result task_fn_a None)]\<rparr>)
   \<and> (url (skip_result task_skip_a None), status (skip_result task_skip_a None),
       state (skip_result task_skip_a None)) = (''http://h/a'', None, SKIPPED)
   \<and> (url (skip_result task_fn_a None), status (skip_result task_fn_a None),
       state (skip_result task_fn_a None)) = (''http://h/a'', None, SKIPPED)
   \<and> map (\<lambda>r. (url r, status r, state r))
       (results (snd (crawl_start env0 task_mail (0, 0) empty_world)))
     = [(''mailto:x@y'', Some 0, SKIPPED)]"
  by (simp add: crawl_start_def pattern_gate_def skipped_frame skip_result_def href_def
      site0 task_skip_a_def task_fn_a_def task_a_def task_mail_def options0_def)

section \<open>The retry after 405\<close>

text \<open>For every task, crawling or not: a first response 405 sends the second request,
  GET read as a stream; when that request throws, the first response is kept.\<close>

lemma retry_405_sends_stream:
  "(res_status res = 405 \<longrightarrow>
      resume env opts AwaitFirst (Reply (Resolved res)) clk w
      = (Suspended (AwaitRetry405 res),
         send \<lparr>meth = GET, req_url = href (opts_url opts), req_headers = headers,
               req_responseType = Stream, req_timeout = timeout (checkOptions opts)\<rparr> w))
   \<and> resume env opts (AwaitRetry405 res) (Reply (Resolved res2)) clk w
      = after_response env opts False res2 [] clk w
   \<and> resume env opts (AwaitRetry405 res) (Reply (Threw err)) clk w
      = get_text env opts (Some res) [Caught err] w"
  by (auto simp: after_response_def shouldRetryAfter_def split: option.splits)

text \<open>
  C8 at a failing input. The page is crawled, so the body is wanted: its first
  request is a GET read as text. It is answered 405, and the second request is a GET
  read as a stream, where the claim says text. When it is answered 200, the result
  is built from the second response, as the claim says.
\<close>

theorem retry_405_reads_stream:
  "crawl task_page
   \<and> crawl_start env0 task_page (0, 0) empty_world
     = (Suspended AwaitFirst,
        empty_world\<lparr>requests := [\<lparr>meth = GET, req_url = ''http://h/'', req_headers = headers,
                                   req_responseType = Text, req_timeout = None\<rparr>]\<rparr>)
   \<and> resume env0 task_page AwaitFirst (Reply (Resolved not_allowed)) (0, 0) empty_world
     = (Suspended (AwaitRetry405 not_allowed),
        empty_world\<lparr>requests := [\<lparr>meth = GET, req_url = ''http://h/'', req_headers = headers,
                                   req_responseType = Stream, req_timeout = None\<rparr>]\<rparr>)
   \<and> map (\<lambda>r. (url r, status r, state r))
       (results (snd (resume env0 task_page (AwaitRetry405 not_allowed)
                        (Reply (Resolved ok_plain)) (0, 0) empty_world)))
     = [(''http://h/'', Some 200, OK)]"
  by (simp add: crawl_defs world_ops site0 task_page_def options0_def not_allowed_def
      ok_plain_def)

section \<open>The link extractor\<close>

lemma getLinks_map:
  "getLinks env source baseUrl =
     map (\<lambda>lnk. normalizeLink env lnk baseUrl)
       (filter (\<lambda>lnk. lnk \<noteq> []) (List.map_filter (\<lambda>v. v) (attribute_values env source)))"
proof -
  have "concat (map (\<lambda>v. case v of None \<Rightarrow> [] | Some lnk \<Rightarrow> if lnk = [] then [] else [lnk]) vs)
        = filter (\<lambda>lnk. lnk \<noteq> []) (List.map_filter (\<lambda>v. v) vs)" for vs :: "string option list"
    by (induction vs) (auto simp: List.map_filter_simps split: option.splits)
  then show ?thesis by (simp add: getLinks_def)
qed

text \<open>The part of the claim the extractor keeps: every value that is present and not
  empty is normalised, in order; a value that resolves gives the \<open>href\<close> of the
  resolved URL with its fragment removed; a value that does not resolve gives
  itself.\<close>

lemma normalizeLink_clears_fragment:
  "(new_URL_base env lnk baseUrl = Some slink \<longrightarrow>
      normalizeLink env lnk baseUrl = href (set_hash [] slink)
      \<and> hash (set_hash [] slink) = [] \<and> fragment (set_hash [] slink) = None
      \<and> normalizeLink env lnk baseUrl = unfragmented slink)
   \<and> (new_URL_base env lnk baseUrl = None \<longrightarrow> normalizeLink env lnk baseUrl = lnk)
   \<and> getLinks env source baseUrl =
       map (\<lambda>lnk. normalizeLink env lnk baseUrl)
         (filter (\<lambda>lnk. lnk \<noteq> []) (List.map_filter (\<lambda>v. v) (attribute_values env source)))"
  by (auto simp: normalizeLink_def set_hash_def hash_def href_def getLinks_map)

text \<open>
  C9 at a failing input. The document has three \<open>href\<close> values: \<open>/a#top\<close>, the empty
  text and \<open>http://[#z\<close>, which does not resolve. The item of the specification for
  the last one is the text with no URL. The extractor returns two strings: the
  resolved URL without its fragment, and the text that did not resolve, unchanged and
  with its fragment, with nothing that tells the two apart.
\<close>

theorem getLinks_returns_strings:
  "new_URL_base env0 ''http://[#z'' ''http://h/'' = None
   \<and> normalizeLink_spec env0 ''http://[#z'' ''http://h/'' = (''http://[#z'', None)
   \<and> normalizeLink env0 ''http://[#z'' ''http://h/'' = ''http://[#z''
   \<and> normalizeLink_spec env0 ''/a#top'' ''http://h/'' = (''/a#top'', Some ''http://h/a'')
   \<and> normalizeLink env0 ''/a#top'' ''http://h/'' = ''http://h/a''
   \<and> getLinks env0 ''doc'' ''http://h/'' = [''http://h/a'', ''http://[#z'']"
  by (simp add: normalizeLink_def normalizeLink_spec_def getLinks_def attribute_values_def
      linksAttr_def set_hash_def href_def site0)

section \<open>The result of check\<close>

text \<open>
  C3: in the value \<open>check\<close> returns, \<open>passed\<close> is true exactly when the number of
  results of \<open>links\<close> with the state BROKEN is zero, that is when no result of
  \<open>links\<close> is BROKEN.
\<close>

theorem passed_iff_no_broken:
  assumes "check env port opts schedule = Some res"
  shows "passed res = (length (filter (\<lambda>x. state x = BROKEN) (links res)) = 0)
         \<and> (passed res \<longleftrightarrow> (\<forall>x\<in>set (links res). state x \<noteq> BROKEN))"
  using assms
  by (auto simp: check_def crawl_result_def filter_empty_conv split: option.splits if_splits)

theorem passed_iff_no_broken_witness:
  "check env0 ''5000'' options0 site_schedule
     = Some \<lparr>links = results (world site_end), passed = False\<rparr>
   \<and> map (\<lambda>r. (url r, status r, state r)) (results (world site_end))
     = [(''http://h/'', Some 200, OK), (''http://['', Some 0, BROKEN),
        (''http://h/a'', Some 404, BROKEN), (''mailto:x@y'', Some 0, SKIPPED)]"
  using passed_iff_no_broken[of env0 "''5000''" options0 site_schedule
      "\<lparr>links = results (world site_end), passed = False\<rparr>"]
  by (simp add: crawl_defs world_ops site0 options0_def task_page_def page_doc_def not_found_def
      site_schedule_def site_start_def run_defs site_end_def)

section \<open>Every result is classified\<close>

lemma classified_link_result: "classified (link_result opts res fs)"
  by (simp add: classified_def link_result_def Let_def)

lemma classified_skip_result:
  "classified (skip_result opts None)" "classified (skip_result opts (Some 0))"
  by (simp_all add: classified_def skip_result_def)

lemma classified_broken_link: "classified (broken_link opts it)"
  by (simp add: classified_def broken_link_def)

lemma all_classified_push:
  "all_classified w \<Longrightarrow> classified x \<Longrightarrow> all_classified (emit e (results_push x w))"
  by (simp add: all_classified_def world_ops)

lemma all_classified_frame:
  "results w' = results w \<Longrightarrow> all_classified w \<Longrightarrow> all_classified w'"
  by (simp add: all_classified_def)

lemma all_classified_crawl_link:
  "all_classified w \<Longrightarrow> all_classified (crawl_link env opts it w)"
  by (auto simp: crawl_link_def all_classified_def world_ops classified_broken_link
      split: option.splits)

lemma all_classified_crawl_links:
  "all_classified w \<Longrightarrow> all_classified (crawl_links env opts its w)"
  by (induction its arbitrary: w) (simp_all add: all_classified_crawl_link)

lemma all_classified_finish:
  assumes "all_classified w"
  shows "all_classified (snd (finish env opts res fs w))"
proof -
  have 1: "all_classified (emit (Link (link_result opts res fs))
                             (results_push (link_result opts res fs) w))"
    using assms classified_link_result by (rule all_classified_push)
  then have 2: "all_classified (emit (Pagestart (opts_url opts))
          (emit (Link (link_result opts res fs)) (results_push (link_result opts res fs) w)))"
    by (simp add: all_classified_def emit_def)
  show ?thesis using 1 all_classified_crawl_links[OF 2]
    by (simp add: finish_def Let_def)
qed

lemma all_classified_get_text:
  "all_classified w \<Longrightarrow> all_classified (snd (get_text env opts res fs w))"
  by (auto simp: get_text_def all_classified_finish) (simp add: all_classified_def send_def)

lemma all_classified_shouldRetryAfter:
  "all_classified w \<Longrightarrow> all_classified (snd (shouldRetryAfter env res opts clk w))"
  by (auto simp: shouldRetryAfter_def world_ops Let_def all_classified_def split: option.splits)

lemma all_classified_after_response:
  assumes "all_classified w"
  shows "all_classified (snd (after_response env opts b res fs clk w))"
proof -
  obtain ra w1 where sra: "shouldRetryAfter env res opts clk w = (ra, w1)"
    by (cases "shouldRetryAfter env res opts clk w")
  have 1: "all_classified w1" using all_classified_shouldRetryAfter[OF assms, of env res opts clk] sra
    by simp
  then have 2: "all_classified (send rq w1)" for rq by (simp add: all_classified_def send_def)
  show ?thesis using 1 2 all_classified_get_text[OF 1] by (simp add: after_response_def sra)
qed

lemma all_classified_delay_gate:
  "all_classified w \<Longrightarrow> all_classified (snd (delay_gate opts clk w))"
  by (auto simp: delay_gate_def world_ops Let_def all_classified_def split: option.splits)

lemma all_classified_skipped:
  "all_classified w \<Longrightarrow> all_classified (skipped opts None w)"
  "all_classified w \<Longrightarrow> all_classified (skipped opts (Some 0) w)"
  unfolding skipped_def by (simp_all add: all_classified_push classified_skip_result)

lemma all_classified_pattern_gate:
  "all_classified w \<Longrightarrow> all_classified (snd (pattern_gate env opts clk w))"
  by (auto simp: pattern_gate_def all_classified_skipped all_classified_delay_gate
      split: skip_policy.splits option.splits)

lemma all_classified_crawl_start:
  "all_classified w \<Longrightarrow> all_classified (snd (crawl_start env opts clk w))"
  by (simp add: crawl_start_def Let_def all_classified_skipped all_classified_pattern_gate)

lemma all_classified_resume:
  assumes "all_classified w"
  shows "all_classified (snd (resume env opts aw inp clk w))"
proof (cases "(env, opts, aw, inp, clk, w)" rule: resume.cases)
  case (8 env opts res0 failures res clk w)
  obtain ra w1 where sra: "shouldRetryAfter env res opts clk w = (ra, w1)"
    by (cases "shouldRetryAfter env res opts clk w")
  have 1: "all_classified w1" using all_classified_shouldRetryAfter[OF assms, of env res opts clk] sra 8
    by simp
  show ?thesis using 8 1 all_classified_finish[OF 1] by (simp add: sra)
qed (use assms in \<open>simp_all add: all_classified_skipped all_classified_pattern_gate
      all_classified_get_text all_classified_after_response all_classified_finish\<close>)

lemma all_classified_settle:
  "all_classified (snd out) \<Longrightarrow> all_classified (world (settle opts out r))"
  by (simp add: settle_def split: task_status.splits)

lemma all_classified_exec:
  assumes "all_classified (world r)" "exec env c r = Some r'"
  shows "all_classified (world r')"
proof (cases c)
  case (Start i clk)
  have "all_classified ((world r)\<lparr>queue := remove_nth i (queue (world r))\<rparr>)"
    using assms(1) by (simp add: all_classified_def)
  then show ?thesis using assms(2) Start
    by (auto simp: Let_def split: if_splits
        intro!: all_classified_settle all_classified_crawl_start)
next
  case (Deliver i inp clk)
  then show ?thesis using assms
    by (auto simp: Let_def split: if_splits
        intro!: all_classified_settle all_classified_resume)
qed

lemma all_classified_run:
  "all_classified (world r) \<Longrightarrow> run env cs r = Some r' \<Longrightarrow> all_classified (world r')"
  by (induction cs arbitrary: r) (auto split: option.splits dest: all_classified_exec)

lemma add_paths_results:
  "add_paths env options ps w = Some w' \<Longrightarrow> results w' = results w"
  by (induction ps arbitrary: w) (auto simp: world_ops split: option.splits)

lemma initial_results: "initial env port opts = Some r0 \<Longrightarrow> results (world r0) = []"
  by (auto simp: initial_def Let_def empty_world_def split: option.splits
      dest!: add_paths_results)

text \<open>
  C2: in every state a run reaches, under any schedule, the state of a result is OK
  exactly when it has a status and the status is from 200 to 299; so a result with
  the status 0, with no status or with any other status is not OK.
\<close>

theorem state_OK_iff_2xx:
  assumes "initial env port opts = Some r0" "run env schedule r0 = Some r"
    "x \<in> set (results (world r))"
  shows "state x = OK \<longleftrightarrow> (\<exists>n. status x = Some n \<and> 200 \<le> n \<and> n < 300)"
proof -
  have "all_classified (world r0)"
    using initial_results[OF assms(1)] by (simp add: all_classified_def)
  then have "all_classified (world r)" using assms(2) by (rule all_classified_run)
  then show ?thesis using assms(3) by (simp add: all_classified_def classified_def list_all_iff)
qed

theorem state_OK_iff_2xx_witness:
  "initial env0 ''5000'' options0 = Some site_start
   \<and> run env0 site_schedule site_start = Some site_end
   \<and> link_result task_page (Some page_doc) [] \<in> set (results (world site_end))
   \<and> state (link_result task_page (Some page_doc) []) = OK
   \<and> status (link_result task_page (Some page_doc) []) = Some 200
   \<and> map (\<lambda>r. (url r, status r, state r)) (results (world site_end))
     = [(''http://h/'', Some 200, OK), (''http://['', Some 0, BROKEN),
        (''http://h/a'', Some 404, BROKEN), (''mailto:x@y'', Some 0, SKIPPED)]"
  using state_OK_iff_2xx[of env0 "''5000''" options0 site_start site_schedule site_end
      "link_result task_page (Some page_doc) []"]
  by (simp add: crawl_defs world_ops site0 options0_def task_page_def page_doc_def not_found_def
      site_schedule_def site_start_def run_defs site_end_def)

section \<open>One result for every string of the cache\<close>

lemma accounted_frame:
  assumes "accounted env n w" "cache w' = cache w" "queue w' = queue w" "results w' = results w"
  shows "accounted env n w'"
  using assms unfolding accounted_def results_for_def queued_for_def by simp

lemma accounted_send: "accounted env n w \<Longrightarrow> accounted env n (send rq w)"
  by (erule accounted_frame) (simp_all add: send_def)

lemma accounted_emit: "accounted env n w \<Longrightarrow> accounted env n (emit e w)"
  by (erule accounted_frame) (simp_all add: emit_def)

lemma accounted_delayCache_set: "accounted env n w \<Longrightarrow> accounted env n (delayCache_set h v w)"
  by (erule accounted_frame) (simp_all add: delayCache_set_def)

lemma accounted_delayCache_delete: "accounted env n w \<Longrightarrow> accounted env n (delayCache_delete h w)"
  by (erule accounted_frame) (simp_all add: delayCache_delete_def)

lemma accounted_result:
  assumes "accounted env (in_hand opts n) w" "url x = href (opts_url opts)"
  shows "accounted env n (results_push x w)"
  unfolding accounted_def
proof
  fix s
  have a: "(s \<in> cache w \<longrightarrow>
               valid_href env s \<and> in_hand opts n s + queued_for s w + results_for s w = 1)
          \<and> (s \<notin> cache w \<longrightarrow>
               in_hand opts n s = 0 \<and> queued_for s w = 0
               \<and> (valid_href env s \<longrightarrow> results_for s w = 0))"
    using assms(1) by (simp add: accounted_def)
  show "(s \<in> cache (results_push x w) \<longrightarrow>
               valid_href env s \<and> n s + queued_for s (results_push x w)
                 + results_for s (results_push x w) = 1)
          \<and> (s \<notin> cache (results_push x w) \<longrightarrow>
               n s = 0 \<and> queued_for s (results_push x w) = 0
               \<and> (valid_href env s \<longrightarrow> results_for s (results_push x w) = 0))"
    using a assms(2)
    by (cases "s = href (opts_url opts)")
       (auto simp: in_hand_def results_push_def results_for_def queued_for_def)
qed

lemma accounted_requeue:
  assumes "accounted env (in_hand opts n) w"
  shows "accounted env n (queue_add opts d w)"
  unfolding accounted_def
proof
  fix s
  have a: "(s \<in> cache w \<longrightarrow>
               valid_href env s \<and> in_hand opts n s + queued_for s w + results_for s w = 1)
          \<and> (s \<notin> cache w \<longrightarrow>
               in_hand opts n s = 0 \<and> queued_for s w = 0
               \<and> (valid_href env s \<longrightarrow> results_for s w = 0))"
    using assms(1) by (simp add: accounted_def)
  show "(s \<in> cache (queue_add opts d w) \<longrightarrow>
               valid_href env s \<and> n s + queued_for s (queue_add opts d w)
                 + results_for s (queue_add opts d w) = 1)
          \<and> (s \<notin> cache (queue_add opts d w) \<longrightarrow>
               n s = 0 \<and> queued_for s (queue_add opts d w) = 0
               \<and> (valid_href env s \<longrightarrow> results_for s (queue_add opts d w) = 0))"
    using a
    by (cases "s = href (opts_url opts)")
       (auto simp: in_hand_def queue_add_def results_for_def queued_for_def)
qed

lemma accounted_broken_link:
  assumes "accounted env n w" "\<not> valid_href env (url x)"
  shows "accounted env n (results_push x w)"
  unfolding accounted_def
proof
  fix s
  have a: "(s \<in> cache w \<longrightarrow>
               valid_href env s \<and> n s + queued_for s w + results_for s w = 1)
          \<and> (s \<notin> cache w \<longrightarrow>
               n s = 0 \<and> queued_for s w = 0 \<and> (valid_href env s \<longrightarrow> results_for s w = 0))"
    using assms(1) by (simp add: accounted_def)
  show "(s \<in> cache (results_push x w) \<longrightarrow>
               valid_href env s \<and> n s + queued_for s (results_push x w)
                 + results_for s (results_push x w) = 1)
          \<and> (s \<notin> cache (results_push x w) \<longrightarrow>
               n s = 0 \<and> queued_for s (results_push x w) = 0
               \<and> (valid_href env s \<longrightarrow> results_for s (results_push x w) = 0))"
    using a assms(2)
    by (cases "s = url x") (auto simp: results_push_def results_for_def queued_for_def)
qed

lemma accounted_child:
  assumes "accounted env n w" "valid_href env (href (opts_url t))" "href (opts_url t) \<notin> cache w"
  shows "accounted env n (queue_add t d (cache_add (href (opts_url t)) w))"
  unfolding accounted_def
proof
  fix s
  let ?w = "queue_add t d (cache_add (href (opts_url t)) w)"
  have a: "(s \<in> cache w \<longrightarrow>
               valid_href env s \<and> n s + queued_for s w + results_for s w = 1)
          \<and> (s \<notin> cache w \<longrightarrow>
               n s = 0 \<and> queued_for s w = 0 \<and> (valid_href env s \<longrightarrow> results_for s w = 0))"
    using assms(1) by (simp add: accounted_def)
  show "(s \<in> cache ?w \<longrightarrow>
               valid_href env s \<and> n s + queued_for s ?w + results_for s ?w = 1)
          \<and> (s \<notin> cache ?w \<longrightarrow>
               n s = 0 \<and> queued_for s ?w = 0 \<and> (valid_href env s \<longrightarrow> results_for s ?w = 0))"
    using a assms(2,3)
    by (cases "s = href (opts_url t)")
       (auto simp: queue_add_def cache_add_def results_for_def queued_for_def)
qed

lemma accounted_crawl_link:
  assumes "url_sane env" "it \<in> set (imported_getLinks env source base)" "accounted env n w"
  shows "accounted env n (crawl_link env opts it w)"
proof (cases "link_url it")
  case None
  then have "\<not> valid_href env (link it)" using assms(1,2) by (fastforce simp: url_sane_def)
  then have "accounted env n (results_push (broken_link opts it) w)"
    using assms(3) by (intro accounted_broken_link) (simp_all add: broken_link_def)
  then show ?thesis using None by (simp add: crawl_link_def accounted_emit)
next
  case (Some u)
  then have v: "valid_href env (href u)" using assms(1,2) by (fastforce simp: url_sane_def)
  have c: "opts_url (child env opts u) = u" by (simp add: child_def Let_def)
  show ?thesis
    using Some assms(3) v accounted_child[of env n w "child env opts u" None]
    by (simp add: crawl_link_def c)
qed

lemma accounted_crawl_links:
  assumes "url_sane env" "set its \<subseteq> set (imported_getLinks env source base)" "accounted env n w"
  shows "accounted env n (crawl_links env opts its w)"
  using assms(2,3)
  by (induction its arbitrary: w) (auto intro: accounted_crawl_link[OF assms(1)])

lemma url_link_result: "url (link_result opts res fs) = href (opts_url opts)"
  by (simp add: link_result_def Let_def)

lemma url_skip_result: "url (skip_result opts st) = href (opts_url opts)"
  by (simp add: skip_result_def)

lemma settled_finish:
  assumes "url_sane env" "accounted env (in_hand opts n) w"
  shows "settled env opts n (finish env opts res fs w)"
proof -
  have 1: "accounted env n (emit (Link (link_result opts res fs))
                             (results_push (link_result opts res fs) w))"
    using accounted_result[OF assms(2) url_link_result] by (rule accounted_emit)
  have 2: "accounted env n (crawl_links env opts (imported_getLinks env d b)
             (emit (Pagestart (opts_url opts)) (emit (Link (link_result opts res fs))
                             (results_push (link_result opts res fs) w))))" for d b
    by (rule accounted_crawl_links[OF assms(1) subset_refl accounted_emit[OF 1]])
  show ?thesis using 1 2 by (simp add: settled_def finish_def Let_def)
qed

lemma settled_get_text:
  assumes "url_sane env" "accounted env (in_hand opts n) w"
  shows "settled env opts n (get_text env opts res fs w)"
  using settled_finish[OF assms] accounted_send[OF assms(2)]
  by (simp add: get_text_def settled_def)

lemma settled_skipped:
  assumes "accounted env (in_hand opts n) w"
  shows "settled env opts n (Done, skipped opts st w)"
  using accounted_emit[OF accounted_result[OF assms url_skip_result]]
  by (simp add: settled_def skipped_def)

lemma settled_delay_gate:
  assumes "accounted env (in_hand opts n) w"
  shows "settled env opts n (delay_gate opts clk w)"
  using accounted_requeue[OF assms] accounted_send[OF assms]
    accounted_send[OF accounted_delayCache_delete[OF assms]]
  by (simp add: delay_gate_def settled_def Let_def split: option.splits)

lemma settled_pattern_gate:
  assumes "accounted env (in_hand opts n) w"
  shows "settled env opts n (pattern_gate env opts clk w)"
  using settled_skipped[OF assms] settled_delay_gate[OF assms] assms
  by (simp add: pattern_gate_def settled_def split: skip_policy.splits option.splits)

lemma settled_crawl_start:
  assumes "accounted env (in_hand opts n) w"
  shows "settled env opts n (crawl_start env opts clk w)"
  using settled_skipped[OF assms] settled_pattern_gate[OF assms] assms
  by (simp add: crawl_start_def settled_def Let_def)

lemma accounted_shouldRetryAfter:
  assumes "accounted env (in_hand opts n) w" "shouldRetryAfter env res opts clk w = (ra, w1)"
  shows "if truthy ra then accounted env n w1 else accounted env (in_hand opts n) w1"
proof -
  note a1 = assms(1) and a2 = accounted_delayCache_set[OF assms(1)]
  show ?thesis
    using assms(2) a1 a2 accounted_requeue[OF a1] accounted_requeue[OF a2]
    by (auto simp: shouldRetryAfter_def Let_def split: option.splits if_splits)
qed

lemma settled_after_response:
  assumes "url_sane env" "accounted env (in_hand opts n) w"
  shows "settled env opts n (after_response env opts b res fs clk w)"
proof -
  obtain ra w1 where sra: "shouldRetryAfter env res opts clk w = (ra, w1)"
    by (cases "shouldRetryAfter env res opts clk w")
  note a = accounted_shouldRetryAfter[OF assms(2) sra]
  show ?thesis
  proof (cases "truthy ra")
    case True
    then show ?thesis using a by (simp add: after_response_def sra settled_def)
  next
    case False
    then have h: "accounted env (in_hand opts n) w1" using a by simp
    show ?thesis using False settled_get_text[OF assms(1) h] accounted_send[OF h]
      by (simp add: after_response_def sra settled_def)
  qed
qed

lemma settled_last:
  assumes "url_sane env" "accounted env (in_hand opts n) w"
  shows "settled env opts n
           (let (retryAfter, w1) = shouldRetryAfter env res opts clk w
            in if truthy retryAfter then (Done, w1) else finish env opts (Some res) fs w1)"
proof -
  obtain ra w1 where sra: "shouldRetryAfter env res opts clk w = (ra, w1)"
    by (cases "shouldRetryAfter env res opts clk w")
  note a = accounted_shouldRetryAfter[OF assms(2) sra]
  show ?thesis
  proof (cases "truthy ra")
    case True
    then show ?thesis using a by (simp add: sra settled_def)
  next
    case False
    then have h: "accounted env (in_hand opts n) w1" using a by simp
    show ?thesis using False settled_finish[OF assms(1) h] by (simp add: sra)
  qed
qed

lemma settled_resume:
  assumes "url_sane env" "accounted env (in_hand opts n) w"
  shows "settled env opts n (resume env opts aw inp clk w)"
proof (cases "(env, opts, aw, inp, clk, w)" rule: resume.cases)
  case (8 env' opts' res0 failures res clk' w')
  then have "aw = AwaitGetText res0 failures" "inp = Reply (Resolved res)" by simp_all
  then show ?thesis using settled_last[OF assms, of res clk failures] by simp
qed (use assms in \<open>simp_all add: settled_skipped settled_pattern_gate settled_get_text
       settled_after_response settled_finish\<close>, simp_all add: settled_def)

lemma length_filter_remove_nth:
  assumes "i < length xs"
  shows "length (filter P (remove_nth i xs)) + (if P (xs ! i) then 1 else 0)
         = length (filter P xs)"
proof -
  have "xs = take i xs @ xs ! i # drop (Suc i) xs"
    using assms by (rule id_take_nth_drop)
  then have "length (filter P xs) = length (filter P (take i xs @ xs ! i # drop (Suc i) xs))"
    by simp
  then show ?thesis by (simp add: remove_nth_def)
qed

lemma conserved_settle:
  assumes "settled env opts (held_for r) out"
  shows "conserved env (settle opts out r)"
proof (cases "fst out")
  case Done
  then show ?thesis using assms
    by (simp add: conserved_def settle_def settled_def held_for_def[abs_def])
next
  case Rejected
  have "held_for (r\<lparr>world := snd out, rejected := rejected r @ [opts]\<rparr>) = in_hand opts (held_for r)"
    by (auto simp: held_for_def in_hand_def fun_eq_iff)
  then show ?thesis using assms Rejected
    by (simp add: conserved_def settle_def settled_def)
next
  case (Suspended aw)
  have "held_for (r\<lparr>world := snd out, running := running r @ [(opts, aw)]\<rparr>) = in_hand opts (held_for r)"
    by (auto simp: held_for_def in_hand_def fun_eq_iff)
  then show ?thesis using assms Suspended
    by (simp add: conserved_def settle_def settled_def)
qed

lemma conserved_exec:
  assumes "url_sane env" "conserved env r" "exec env c r = Some r'"
  shows "conserved env r'"
proof (cases c)
  case (Start i clk)
  let ?opts = "fst (queue (world r) ! i)"
  let ?w0 = "(world r)\<lparr>queue := remove_nth i (queue (world r))\<rparr>"
  have i: "i < length (queue (world r))" using assms(3) Start by (simp split: if_splits)
  have r': "r' = settle ?opts (crawl_start env ?opts clk ?w0) r"
    using assms(3) Start by (simp add: Let_def split: if_splits)
  have q: "queued_for s ?w0 + (if href (opts_url ?opts) = s then 1 else 0) = queued_for s (world r)" for s
    using length_filter_remove_nth[OF i, of "\<lambda>e. href (opts_url (fst e)) = s"]
    by (simp add: queued_for_def)
  have "accounted env (in_hand ?opts (held_for r)) ?w0"
    unfolding accounted_def
  proof
    fix s
    have a: "(s \<in> cache (world r) \<longrightarrow>
               valid_href env s \<and> held_for r s + queued_for s (world r) + results_for s (world r) = 1)
          \<and> (s \<notin> cache (world r) \<longrightarrow>
               held_for r s = 0 \<and> queued_for s (world r) = 0
               \<and> (valid_href env s \<longrightarrow> results_for s (world r) = 0))"
      using assms(2) by (simp add: conserved_def accounted_def)
    have rs: "results_for s ?w0 = results_for s (world r)" by (simp add: results_for_def)
    show "(s \<in> cache ?w0 \<longrightarrow>
               valid_href env s \<and> in_hand ?opts (held_for r) s + queued_for s ?w0 + results_for s ?w0 = 1)
          \<and> (s \<notin> cache ?w0 \<longrightarrow>
               in_hand ?opts (held_for r) s = 0 \<and> queued_for s ?w0 = 0
               \<and> (valid_href env s \<longrightarrow> results_for s ?w0 = 0))"
      using a q[of s] rs by (auto simp: in_hand_def split: if_splits)
  qed
  then have "settled env ?opts (held_for r) (crawl_start env ?opts clk ?w0)"
    by (rule settled_crawl_start)
  then show ?thesis unfolding r' by (rule conserved_settle)
next
  case (Deliver i inp clk)
  let ?opts = "fst (running r ! i)"
  let ?aw = "snd (running r ! i)"
  let ?r0 = "r\<lparr>running := remove_nth i (running r)\<rparr>"
  have i: "i < length (running r)" using assms(3) Deliver by (simp split: if_splits)
  have r': "r' = settle ?opts (resume env ?opts ?aw inp clk (world r)) ?r0"
    using assms(3) Deliver by (simp add: Let_def split: if_splits)
  have h: "held_for ?r0 s + (if href (opts_url ?opts) = s then 1 else 0) = held_for r s" for s
    using length_filter_remove_nth[OF i, of "\<lambda>e. href (opts_url (fst e)) = s"]
    by (simp add: held_for_def)
  have "in_hand ?opts (held_for ?r0) s = held_for r s" for s
    using h[of s] by (auto simp: in_hand_def split: if_splits)
  then have "in_hand ?opts (held_for ?r0) = held_for r"
    by (simp add: fun_eq_iff)
  then have "accounted env (in_hand ?opts (held_for ?r0)) (world r)"
    using assms(2) by (simp add: conserved_def)
  then have "settled env ?opts (held_for ?r0) (resume env ?opts ?aw inp clk (world r))"
    by (rule settled_resume[OF assms(1)])
  then show ?thesis unfolding r' by (rule conserved_settle)
qed

lemma conserved_run:
  "url_sane env \<Longrightarrow> conserved env r \<Longrightarrow> run env cs r = Some r' \<Longrightarrow> conserved env r'"
  by (induction cs arbitrary: r) (auto split: option.splits dest: conserved_exec)

lemma accounted_add_paths:
  assumes "url_sane env"
  shows "accounted env (\<lambda>s. 0) w \<Longrightarrow> add_paths env options ps w = Some w'
         \<Longrightarrow> distinct (map (\<lambda>p. map_option href (new_URL env p)) ps)
         \<Longrightarrow> (\<forall>p\<in>set ps. \<forall>u. new_URL env p = Some u \<longrightarrow> href u \<notin> cache w)
         \<Longrightarrow> accounted env (\<lambda>s. 0) w'"
proof (induction ps arbitrary: w)
  case Nil
  then show ?case by simp
next
  case (Cons p ps)
  from Cons.prems(2) obtain u where u: "new_URL env p = Some u"
    by (auto split: option.splits)
  let ?t = "\<lparr>opts_url = u, opts_parent = None, crawl = True,
             checkOptions = options, rootPath = p\<rparr>"
  let ?w = "queue_add ?t None (cache_add (href u) w)"
  have rest: "add_paths env options ps ?w = Some w'" using Cons.prems(2) u by simp
  have v: "valid_href env (href u)" using assms u by (auto simp: url_sane_def)
  have nc: "href u \<notin> cache w" using Cons.prems(4) u by simp
  have 1: "accounted env (\<lambda>s. 0) ?w"
    using accounted_child[of env "\<lambda>s. 0" w ?t None] Cons.prems(1) v nc by simp
  have 2: "\<forall>q\<in>set ps. \<forall>u'. new_URL env q = Some u' \<longrightarrow> href u' \<notin> cache ?w"
  proof (intro ballI allI impI)
    fix q u' assume q: "q \<in> set ps" "new_URL env q = Some u'"
    then have "href u' \<notin> cache w" using Cons.prems(4) by simp
    moreover have "href u' \<noteq> href u"
    proof
      assume "href u' = href u"
      then have "map_option href (new_URL env q) = map_option href (new_URL env p)"
        using q u by simp
      then show False using Cons.prems(3) q(1) by (auto simp: image_iff)
    qed
    ultimately show "href u' \<notin> cache ?w" by (simp add: queue_add_def cache_add_def)
  qed
  show ?case using Cons.IH[OF 1 rest _ 2] Cons.prems(3) by simp
qed

lemma conserved_initial:
  assumes "url_sane env" "distinct (start_hrefs env port opts)" "initial env port opts = Some r0"
  shows "conserved env r0"
proof -
  let ?o = "effective_options port opts"
  obtain w where w: "add_paths env ?o (path ?o) empty_world = Some w"
    and r0: "world r0 = w" "running r0 = []" "rejected r0 = []"
    using assms(3) by (auto simp: initial_def Let_def split: option.splits)
  have e: "accounted env (\<lambda>s. 0) empty_world"
    by (simp add: accounted_def empty_world_def queued_for_def results_for_def)
  have "accounted env (\<lambda>s. 0) w"
    using accounted_add_paths[OF assms(1) e w] assms(2)
    by (simp add: start_hrefs_def empty_world_def)
  moreover have "held_for r0 = (\<lambda>s. 0)" using r0 by (simp add: held_for_def fun_eq_iff)
  ultimately show ?thesis using r0 by (simp add: conserved_def)
qed

text \<open>
  C1, as the code has it. When the starting paths have different \<open>href\<close>s, the
  library is sane, the queue is idle and no task was rejected, every string of the
  cache is the \<open>url\<close> of exactly one result. A link that resolved adds a task to the
  queue only when its \<open>href\<close> is not in the cache, and then the \<open>href\<close> is added to
  the cache and the task to the queue in the same stretch; a link that did not
  resolve adds neither.
\<close>

theorem one_result_per_cached_url:
  assumes "url_sane env" "distinct (start_hrefs env port opts)"
    "initial env port opts = Some r0" "run env schedule r0 = Some r"
    "idle r" "rejected r = []" "s \<in> cache (world r)"
  shows "length (filter (\<lambda>x. url x = s) (results (world r))) = 1
         \<and> (link_url it = Some u \<and> href u \<in> cache w \<longrightarrow> crawl_link env opts' it w = w)
         \<and> (link_url it = Some u \<and> href u \<notin> cache w \<longrightarrow>
              crawl_link env opts' it w
              = queue_add (child env opts' u) None (cache_add (href u) w))
         \<and> (link_url it = None \<longrightarrow>
              queue (crawl_link env opts' it w) = queue w
              \<and> cache (crawl_link env opts' it w) = cache w)"
proof -
  have gate: "(link_url it = Some u \<and> href u \<in> cache w \<longrightarrow> crawl_link env opts' it w = w)
         \<and> (link_url it = Some u \<and> href u \<notin> cache w \<longrightarrow>
              crawl_link env opts' it w
              = queue_add (child env opts' u) None (cache_add (href u) w))
         \<and> (link_url it = None \<longrightarrow>
              queue (crawl_link env opts' it w) = queue w
              \<and> cache (crawl_link env opts' it w) = cache w)"
    by (simp add: crawl_link_def world_ops)
  have "conserved env r"
    using conserved_run[OF assms(1) conserved_initial[OF assms(1-3)] assms(4)] .
  then have "held_for r s + queued_for s (world r) + results_for s (world r) = 1"
    using assms(7) by (simp add: conserved_def accounted_def)
  then show ?thesis using assms(5,6) gate
    by (simp add: idle_def held_for_def queued_for_def results_for_def)
qed

lemma url_sane_env0: "url_sane env0"
  by (auto simp: url_sane_def valid_href_def href_def site0 split: if_splits)

theorem one_result_per_cached_url_witness:
  "url_sane env0 \<and> distinct (start_hrefs env0 ''5000'' options0)
   \<and> initial env0 ''5000'' options0 = Some site_start
   \<and> run env0 site_schedule site_start = Some site_end
   \<and> idle site_end \<and> rejected site_end = []
   \<and> cache (world site_end) = {''mailto:x@y'', ''http://h/a'', ''http://h/''}
   \<and> map url (results (world site_end))
      = [''http://h/'', ''http://['', ''http://h/a'', ''mailto:x@y'']
   \<and> length (filter (\<lambda>x. url x = ''http://h/a'') (results (world site_end))) = 1"
  using one_result_per_cached_url[of env0 "''5000''" options0 site_start site_schedule site_end
      "''http://h/a''" "\<lparr>link = ''/a'', link_url = Some url_a\<rparr>" url_a empty_world task_page]
    url_sane_env0
  by (simp add: crawl_defs world_ops site0 options0_def task_page_def page_doc_def not_found_def
      site_schedule_def site_start_def run_defs site_end_def start_hrefs_def)

text \<open>The same path twice: the cache has one string, the queue two tasks, and the
  run ends with two results for the string.\<close>

theorem duplicate_start_counterexample:
  "distinct (path same_path_twice) = False
   \<and> map_option (\<lambda>r. (idle r, rejected r, cache (world r),
                       map (\<lambda>x. (url x, status x, state x)) (results (world r))))
       (case initial env0 ''5000'' same_path_twice of
          None \<Rightarrow> None
        | Some r0 \<Rightarrow>
            run env0 [Start 0 (0, 0), Deliver 0 (Reply (Resolved ok_plain)) (0, 0),
                      Start 0 (0, 0), Deliver 0 (Reply (Resolved not_found)) (0, 0)] r0)
     = Some (True, [], {''http://h/a''},
             [(''http://h/a'', Some 200, OK), (''http://h/a'', Some 404, BROKEN)])"
  by (simp add: crawl_defs world_ops site0 same_path_twice_def options0_def ok_plain_def
      not_found_def run_defs)

end
